theory Spec2Isabelle
  imports Complex_Main "HOL-Library.Word"
begin

unbundle bit_operations_syntax

section \<open>Frame codec of \<^verbatim>\<open>app.py\<close>\<close>

text \<open>
  A Python \<^verbatim>\<open>bytes\<close> object is a sequence of integers in the range 0..255: a list of
  8-bit words. Indexing a byte yields a Python \<^verbatim>\<open>int\<close>, which is unbounded: \<open>uint\<close>
  reads the byte as an \<open>int\<close>, and all arithmetic of the codec is done on \<open>int\<close>, as in
  the source.
\<close>

type_synonym byte = "8 word"

text \<open>
  \<^verbatim>\<open>QUERY_FRAME = bytes([0x01, 0x03, 0x00, 0x00, 0x00, 0x07, 0x04, 0x08])\<close>
\<close>

definition QUERY_FRAME :: "byte list" where
  "QUERY_FRAME = [0x01, 0x03, 0x00, 0x00, 0x00, 0x07, 0x04, 0x08]"

text \<open>
  The inner loop of \<^verbatim>\<open>_crc16_modbus\<close>, \<^verbatim>\<open>for _ in range(8)\<close>, with the number of rounds
  still to run:
  \<^verbatim>\<open>
      if crc & 1:
          crc = (crc >> 1) ^ 0xA001
      else:
          crc >>= 1
  \<close>
\<close>

fun crc_rounds :: "nat \<Rightarrow> int \<Rightarrow> int" where
  "crc_rounds 0 crc = crc"
| "crc_rounds (Suc n) crc =
     crc_rounds n (if crc AND 1 \<noteq> 0 then drop_bit 1 crc XOR 0xA001 else drop_bit 1 crc)"

text \<open>
  The outer loop, \<^verbatim>\<open>for b in data: crc ^= b; ...\<close>, with the register as accumulator.
\<close>

fun crc_bytes :: "int \<Rightarrow> byte list \<Rightarrow> int" where
  "crc_bytes crc [] = crc"
| "crc_bytes crc (b # data) = crc_bytes (crc_rounds 8 (crc XOR uint b)) data"

text \<open>
  \<^verbatim>\<open>
  def _crc16_modbus(data: bytes) -> int:
      crc = 0xFFFF
      for b in data: ...
      return crc & 0xFFFF
  \<close>
\<close>

definition crc16_modbus :: "byte list \<Rightarrow> int" where
  "crc16_modbus data = crc_bytes 0xFFFF data AND 0xFFFF"

text \<open>
  The dictionary returned by \<^verbatim>\<open>_parse_frame\<close> and the dictionary \<^verbatim>\<open>sim_state\<close> of the
  worker hold the same seven measurement keys; the reading adds \<^verbatim>\<open>sensor_id\<close> and,
  once the worker has stamped it, \<^verbatim>\<open>timestamp\<close> (a key that is absent until then:
  \<open>None\<close>). The values Python holds as \<^verbatim>\<open>float\<close> are rationals here: \<^verbatim>\<open>regs[0] / 10.0\<close>
  is the exact quotient, of which the Python value is the nearest double.
\<close>

record measurements =
  humidity :: rat
  temperature :: rat
  conductivity :: int
  ph :: rat
  nitrogen :: int
  phosphorus :: int
  potassium :: int

record reading = measurements +
  sensor_id :: int
  timestamp :: "string option"

text \<open>
  Every failure of \<^verbatim>\<open>_parse_frame\<close> is a \<^verbatim>\<open>ValueError\<close>; the four \<^verbatim>\<open>raise\<close> statements
  differ in their message, and each message carries the offending value:
  \<^verbatim>\<open>"Invalid frame length: {len(frame)}"\<close>,
  \<^verbatim>\<open>"CRC mismatch: expected 0x{crc_expected:04X}, got 0x{crc_calc:04X}"\<close>,
  \<^verbatim>\<open>"Unexpected function code: {frame[1]}"\<close>,
  \<^verbatim>\<open>"Unexpected byte count: {frame[2]}"\<close>.
\<close>

datatype value_error =
    Invalid_frame_length nat
  | CRC_mismatch int int
  | Unexpected_function_code int
  | Unexpected_byte_count int

text \<open>
  \<^verbatim>\<open>(hi << 8) | lo\<close> for \<^verbatim>\<open>hi = frame[3 + 2 * i]\<close> and \<^verbatim>\<open>lo = frame[4 + 2 * i]\<close>. The
  function is only called on frames of 19 bytes, where both indices are in range.
\<close>

definition reg :: "byte list \<Rightarrow> nat \<Rightarrow> int" where
  "reg frame i = push_bit 8 (uint (frame ! (3 + 2 * i))) OR uint (frame ! (4 + 2 * i))"

text \<open>\<^verbatim>\<open>for i in range(7): ... regs.append((hi << 8) | lo)\<close>\<close>

definition regs_of :: "byte list \<Rightarrow> int list" where
  "regs_of frame = map (reg frame) [0..<7]"

text \<open>
  \<^verbatim>\<open>_parse_frame\<close>. Under the length check the negative indices \<^verbatim>\<open>frame[-2]\<close> and
  \<^verbatim>\<open>frame[-1]\<close> are \<open>length frame - 2\<close> and \<open>length frame - 1\<close>, and \<^verbatim>\<open>frame[:-2]\<close> is the
  frame without its last two bytes.
\<close>

definition parse_frame :: "byte list \<Rightarrow> value_error + reading" where
  "parse_frame frame =
     (if length frame \<noteq> 19 then Inl (Invalid_frame_length (length frame))
      else
        let data_wo_crc = take (length frame - 2) frame;
            crc_expected = uint (frame ! (length frame - 2))
                             OR push_bit 8 (uint (frame ! (length frame - 1)));
            crc_calc = crc16_modbus data_wo_crc
        in if crc_expected \<noteq> crc_calc then Inl (CRC_mismatch crc_expected crc_calc)
           else if uint (frame ! 1) \<noteq> 0x03 then Inl (Unexpected_function_code (uint (frame ! 1)))
           else if uint (frame ! 2) \<noteq> 14 then Inl (Unexpected_byte_count (uint (frame ! 2)))
           else
             let regs = regs_of frame
             in Inr \<lparr> humidity = of_int (regs ! 0) / 10,
                      temperature = of_int (regs ! 1) / 10,
                      conductivity = regs ! 2,
                      ph = of_int (regs ! 3) / 10,
                      nitrogen = regs ! 4,
                      phosphorus = regs ! 5,
                      potassium = regs ! 6,
                      sensor_id = uint (frame ! 0),
                      timestamp = None \<rparr>)"

subsection \<open>The reference checksum, as the specification words it\<close>

text \<open>
  The specification describes \<open>checksum16\<close> as a 16-bit register that starts at 0xFFFF;
  each byte is XOR-ed into it, followed by 8 steps, each a shift right by one with a
  conditional XOR of 0xA001 when the low bit was set. This second definition follows
  those words on a 16-bit word; it is compared with \<open>crc16_modbus\<close> below.
\<close>

definition checksum16_step :: "16 word \<Rightarrow> 16 word" where
  "checksum16_step r = (if bit r 0 then drop_bit 1 r XOR 0xA001 else drop_bit 1 r)"

definition checksum16_byte :: "16 word \<Rightarrow> byte \<Rightarrow> 16 word" where
  "checksum16_byte r b = (checksum16_step ^^ 8) (r XOR ucast b)"

definition checksum16 :: "byte list \<Rightarrow> 16 word" where
  "checksum16 data = foldl checksum16_byte 0xFFFF data"

section \<open>The synthetic source\<close>

text \<open>
  Python's \<^verbatim>\<open>int(x)\<close> on a float truncates towards zero.
\<close>

definition py_int :: "rat \<Rightarrow> int" where
  "py_int x = (if 0 \<le> x then \<lfloor>x\<rfloor> else \<lceil>x\<rceil>)"

text \<open>
  One simulated cycle calls \<^verbatim>\<open>random.random()\<close> seven times, in the order of the fields
  below. The values drawn are inputs of the model.
\<close>

record draws =
  u_humidity :: rat
  u_temperature :: rat
  u_ph :: rat
  u_conductivity :: rat
  u_nitrogen :: rat
  u_phosphorus :: rat
  u_potassium :: rat

text \<open>
  \<^verbatim>\<open>
  sim_state["humidity"] += (0.1 - 0.2 * random.random())
  sim_state["temperature"] += (0.05 - 0.1 * random.random())
  sim_state["ph"] += (0.02 - 0.04 * random.random())
  sim_state["conductivity"] += int(2 - 4 * random.random())
  sim_state["nitrogen"] += int(0.4 - 0.8 * random.random())
  sim_state["phosphorus"] += int(0.4 - 0.8 * random.random())
  sim_state["potassium"] += int(0.4 - 0.8 * random.random())
  \<close>
\<close>

definition perturb :: "draws \<Rightarrow> measurements \<Rightarrow> measurements" where
  "perturb u s =
     \<lparr> humidity = humidity s + (1 / 10 - 2 / 10 * u_humidity u),
       temperature = temperature s + (5 / 100 - 1 / 10 * u_temperature u),
       conductivity = conductivity s + py_int (2 - 4 * u_conductivity u),
       ph = ph s + (2 / 100 - 4 / 100 * u_ph u),
       nitrogen = nitrogen s + py_int (4 / 10 - 8 / 10 * u_nitrogen u),
       phosphorus = phosphorus s + py_int (4 / 10 - 8 / 10 * u_phosphorus u),
       potassium = potassium s + py_int (4 / 10 - 8 / 10 * u_potassium u) \<rparr>"

text \<open>
  \<^verbatim>\<open>
  sim_state["humidity"] = max(0, min(100, sim_state["humidity"]))
  sim_state["temperature"] = max(-20, min(60, sim_state["temperature"]))
  sim_state["ph"] = max(0, min(14, sim_state["ph"]))
  sim_state["conductivity"] = max(0, sim_state["conductivity"])
  sim_state["nitrogen"] = max(0, sim_state["nitrogen"])
  sim_state["phosphorus"] = max(0, sim_state["phosphorus"])
  sim_state["potassium"] = max(0, sim_state["potassium"])
  \<close>
\<close>

definition clamp_ranges :: "measurements \<Rightarrow> measurements" where
  "clamp_ranges s =
     \<lparr> humidity = max 0 (min 100 (humidity s)),
       temperature = max (- 20) (min 60 (temperature s)),
       conductivity = max 0 (conductivity s),
       ph = max 0 (min 14 (ph s)),
       nitrogen = max 0 (nitrogen s),
       phosphorus = max 0 (phosphorus s),
       potassium = max 0 (potassium s) \<rparr>"

definition simulate :: "draws \<Rightarrow> measurements \<Rightarrow> measurements" where
  "simulate u s = clamp_ranges (perturb u s)"

text \<open>The \<^verbatim>\<open>sim_state\<close> the worker starts from.\<close>

definition initial_sim_state :: measurements where
  "initial_sim_state =
     \<lparr> humidity = 55, temperature = 285 / 10, conductivity = 450, ph = 65 / 10,
       nitrogen = 20, phosphorus = 15, potassium = 30 \<rparr>"

text \<open>\<^verbatim>\<open>data = {"sensor_id": 1, **sim_state}\<close>\<close>

definition simulated_reading :: "measurements \<Rightarrow> reading" where
  "simulated_reading s =
     \<lparr> humidity = humidity s, temperature = temperature s, conductivity = conductivity s,
       ph = ph s, nitrogen = nitrogen s, phosphorus = phosphorus s,
       potassium = potassium s, sensor_id = 1, timestamp = None \<rparr>"

section \<open>The history store and the worker\<close>

text \<open>
  The configuration read from the environment when the module is loaded.
  \<^verbatim>\<open>history = deque(maxlen=HISTORY_MAX)\<close> raises for a negative \<^verbatim>\<open>HISTORY_MAX\<close>, so a
  module that runs has a natural number there.
\<close>

record config =
  COM_PORT :: string
  BAUDRATE :: int
  POLL_INTERVAL :: rat
  HISTORY_MAX :: nat
  FALLBACK_TO_SIM :: bool

text \<open>
  \<^verbatim>\<open>collections.deque(maxlen=n).append(x)\<close>: the item is added on the right and, when the
  deque is then longer than \<open>n\<close>, one item is removed on the left.
\<close>

definition deque_append :: "nat \<Rightarrow> 'a list \<Rightarrow> 'a \<Rightarrow> 'a list" where
  "deque_append maxlen d x = (let d' = d @ [x] in if maxlen < length d' then tl d' else d')"

text \<open>\<^verbatim>\<open>serial.Serial(COM_PORT, BAUDRATE, timeout=0.5)\<close>: the open port.\<close>

datatype serial_port = Serial string int

text \<open>
  The worker's variables: the local \<^verbatim>\<open>ser\<close> and \<^verbatim>\<open>sim_state\<close>, and the globals
  \<^verbatim>\<open>history\<close>, \<^verbatim>\<open>_last_seq\<close> and \<^verbatim>\<open>_is_simulating\<close>.
\<close>

record worker_state =
  ser :: "serial_port option"
  sim_state :: measurements
  history :: "reading list"
  last_seq :: int
  is_simulating :: bool

text \<open>What the worker does to the world outside its variables, in order.\<close>

datatype event =
    Open string int
  | Reset_input_buffer
  | Write "byte list"
  | Read nat
  | Close
  | Sleep rat
  | Append reading
  | Notify_all

text \<open>A call on the serial port returns or raises.\<close>

datatype 'a outcome = Returns 'a | Raises

text \<open>
  What the world answers during one pass of the worker's loop. An exception of
  \<^verbatim>\<open>reset_input_buffer\<close> or of \<^verbatim>\<open>close\<close> is swallowed by the source
  (\<^verbatim>\<open>except Exception: pass\<close>), so their outcomes are no inputs.
\<close>

record cycle_input =
  write_result :: "unit outcome"
  read_result :: "byte list outcome"
  random :: draws
  utcnow :: string

text \<open>
  The start of \<^verbatim>\<open>_serial_worker\<close>, before the loop. \<open>serial_imported\<close> is
  \<^verbatim>\<open>serial is not None\<close>; \<open>open_succeeds\<close> tells whether \<^verbatim>\<open>serial.Serial(...)\<close>
  returns. \<open>None\<close> is the exception re-raised by \<^verbatim>\<open>raise\<close>, which ends the worker.
\<close>

definition serial_worker_start :: "config \<Rightarrow> bool \<Rightarrow> bool \<Rightarrow> (worker_state \<times> event list) option" where
  "serial_worker_start cfg serial_imported open_succeeds =
     (let st = \<lparr> ser = None, sim_state = initial_sim_state, history = [], last_seq = 0,
                 is_simulating = False \<rparr>
      in if serial_imported then
           if open_succeeds then
             Some (st\<lparr>ser := Some (Serial (COM_PORT cfg) (BAUDRATE cfg)), is_simulating := False\<rparr>,
                   [Open (COM_PORT cfg) (BAUDRATE cfg)])
           else if \<not> FALLBACK_TO_SIM cfg then None
           else Some (st\<lparr>ser := None, is_simulating := True\<rparr>, [Open (COM_PORT cfg) (BAUDRATE cfg)])
         else Some (st\<lparr>is_simulating := True\<rparr>, []))"

text \<open>\<^verbatim>\<open>time.sleep(max(0.1, POLL_INTERVAL - 0.2))\<close>\<close>

definition rest_of_interval :: "config \<Rightarrow> event" where
  "rest_of_interval cfg = Sleep (max (1 / 10) (POLL_INTERVAL cfg - 2 / 10))"

text \<open>
  The end of a pass that produced \<^verbatim>\<open>data\<close>:
  \<^verbatim>\<open>
  data["timestamp"] = datetime.utcnow().isoformat() + "Z"
  with _cond:
      history.append(data)
      _last_seq += 1
      _cond.notify_all()
  time.sleep(max(0.1, POLL_INTERVAL - 0.2))
  \<close>
  The block under \<^verbatim>\<open>with _cond\<close> is one transition of the state.
\<close>

definition publish :: "config \<Rightarrow> string \<Rightarrow> reading \<Rightarrow> worker_state \<Rightarrow> worker_state \<times> event list" where
  "publish cfg now data st =
     (let stamped = data\<lparr>timestamp := Some (now @ ''Z'')\<rparr>
      in (st\<lparr>history := deque_append (HISTORY_MAX cfg) (history st) stamped,
              last_seq := last_seq st + 1\<rparr>,
          [Append stamped, Notify_all, rest_of_interval cfg]))"

text \<open>
  The handler of the loop:
  \<^verbatim>\<open>
  except Exception:
      if ser is not None and FALLBACK_TO_SIM:
          try: ser.close()
          except Exception: pass
          ser = None
          _is_simulating = True
      time.sleep(1.0)
  \<close>
\<close>

definition on_exception :: "config \<Rightarrow> worker_state \<Rightarrow> worker_state \<times> event list" where
  "on_exception cfg st =
     (if ser st \<noteq> None \<and> FALLBACK_TO_SIM cfg
      then (st\<lparr>ser := None, is_simulating := True\<rparr>, [Close, Sleep 1])
      else (st, [Sleep 1]))"

definition after :: "event list \<Rightarrow> worker_state \<times> event list \<Rightarrow> worker_state \<times> event list" where
  "after evs r = (fst r, evs @ snd r)"

text \<open>
  One pass of \<^verbatim>\<open>while True\<close> in \<^verbatim>\<open>_serial_worker\<close>: the new state and what was done.
  With a port, the pass resets the input buffer, writes the query, sleeps 0.2, reads 19
  bytes; a short read ends the pass (\<^verbatim>\<open>continue\<close>) after the sleep; a full read is
  parsed. Without a port the pass advances the synthetic source.
\<close>

definition serial_worker_pass :: "config \<Rightarrow> cycle_input \<Rightarrow> worker_state \<Rightarrow> worker_state \<times> event list" where
  "serial_worker_pass cfg inp st =
     (case ser st of
        Some port \<Rightarrow>
          (case write_result inp of
             Raises \<Rightarrow> after [Reset_input_buffer, Write QUERY_FRAME] (on_exception cfg st)
           | Returns _ \<Rightarrow>
               (case read_result inp of
                  Raises \<Rightarrow>
                    after [Reset_input_buffer, Write QUERY_FRAME, Sleep (2 / 10), Read 19]
                      (on_exception cfg st)
                | Returns resp \<Rightarrow>
                    if length resp \<noteq> 19 then
                      (st, [Reset_input_buffer, Write QUERY_FRAME, Sleep (2 / 10), Read 19,
                            rest_of_interval cfg])
                    else
                      (case parse_frame resp of
                         Inl err \<Rightarrow>
                           after [Reset_input_buffer, Write QUERY_FRAME, Sleep (2 / 10), Read 19]
                             (on_exception cfg st)
                       | Inr data \<Rightarrow>
                           after [Reset_input_buffer, Write QUERY_FRAME, Sleep (2 / 10), Read 19]
                             (publish cfg (utcnow inp) data st))))
      | None \<Rightarrow>
          (let s = simulate (random inp) (sim_state st)
           in publish cfg (utcnow inp) (simulated_reading s) (st\<lparr>sim_state := s\<rparr>)))"

text \<open>The loop, for as many passes as there are inputs.\<close>

fun serial_worker_loop :: "config \<Rightarrow> cycle_input list \<Rightarrow> worker_state \<Rightarrow> worker_state \<times> event list" where
  "serial_worker_loop cfg [] st = (st, [])"
| "serial_worker_loop cfg (inp # inps) st =
     after (snd (serial_worker_pass cfg inp st))
       (serial_worker_loop cfg inps (fst (serial_worker_pass cfg inp st)))"

text \<open>The readings appended to the history, in order.\<close>

fun appended :: "event list \<Rightarrow> reading list" where
  "appended [] = []"
| "appended (Append r # evs) = r # appended evs"
| "appended (_ # evs) = appended evs"

section \<open>The stream\<close>

text \<open>
  \<^verbatim>\<open>Condition.wait_for(predicate)\<close> evaluates the predicate with the lock held, and
  while it is false waits for a notification and evaluates it again. The list holds the
  shared state as the waiting thread finds it each time it evaluates the predicate: on
  entry first, then after each wake-up. \<open>None\<close>: the thread is still waiting after
  all of them.
\<close>

fun wait_for :: "('s \<Rightarrow> bool) \<Rightarrow> 's list \<Rightarrow> 's option" where
  "wait_for predicate [] = None"
| "wait_for predicate (s # ss) = (if predicate s then Some s else wait_for predicate ss)"

text \<open>
  One pass of the loop of \<^verbatim>\<open>event_stream\<close>:
  \<^verbatim>\<open>
  with _cond:
      _cond.wait_for(lambda: _last_seq != last_seen)
      last_seen = _last_seq
      payload = json.dumps(history[-1])
  yield f"data: {payload}\n\n"
  \<close>
  \<^verbatim>\<open>history[-1]\<close> raises \<^verbatim>\<open>IndexError\<close> on an empty deque.
\<close>

datatype stream_result = Blocked | IndexError | Yield reading int

definition event_stream :: "int \<Rightarrow> worker_state list \<Rightarrow> stream_result" where
  "event_stream last_seen observed =
     (case wait_for (\<lambda>s. last_seq s \<noteq> last_seen) observed of
        None \<Rightarrow> Blocked
      | Some s \<Rightarrow> if history s = [] then IndexError else Yield (last (history s)) (last_seq s))"

section \<open>Predicates and example values used in the statements\<close>

text \<open>
  The ranges the worker clamps to: humidity in 0..100, temperature in -20..60, pH in
  0..14, and the four remaining fields not negative. The predicate reads the
  measurement fields only, so it applies to a \<open>sim_state\<close> and to a reading alike.
\<close>

definition within_clamp_ranges :: "'a measurements_scheme \<Rightarrow> bool" where
  "within_clamp_ranges s =
     (0 \<le> humidity s \<and> humidity s \<le> 100
      \<and> - 20 \<le> temperature s \<and> temperature s \<le> 60
      \<and> 0 \<le> ph s \<and> ph s \<le> 14
      \<and> 0 \<le> conductivity s \<and> 0 \<le> nitrogen s \<and> 0 \<le> phosphorus s \<and> 0 \<le> potassium s)"

text \<open>
  A pass with a port ends in the handler of the loop when \<^verbatim>\<open>ser.write\<close> raises, when
  \<^verbatim>\<open>ser.read\<close> raises, or when 19 bytes were read and \<^verbatim>\<open>_parse_frame\<close> raises.
\<close>

definition cycle_fails :: "cycle_input \<Rightarrow> bool" where
  "cycle_fails inp =
     (case write_result inp of
        Raises \<Rightarrow> True
      | Returns _ \<Rightarrow>
          (case read_result inp of
             Raises \<Rightarrow> True
           | Returns resp \<Rightarrow> length resp = 19 \<and> isl (parse_frame resp)))"


text \<open>
  Concrete values for the examples: the default configuration with a history of two
  readings, one set of draws, a pass input whose clock reads \<open>now\<close>, a pass input whose
  response is 19 zero bytes (a frame with a wrong checksum), and the worker's state after
  a start without and with a port.
\<close>

definition example_config :: config where
  "example_config =
     \<lparr> COM_PORT = ''COM4'', BAUDRATE = 4800, POLL_INTERVAL = 1, HISTORY_MAX = 2,
       FALLBACK_TO_SIM = True \<rparr>"

definition example_draws :: draws where
  "example_draws =
     \<lparr> u_humidity = 1 / 4, u_temperature = 3 / 4, u_ph = 1 / 2, u_conductivity = 0,
       u_nitrogen = 9 / 10, u_phosphorus = 0, u_potassium = 1 / 2 \<rparr>"

definition example_input :: "string \<Rightarrow> cycle_input" where
  "example_input now =
     \<lparr> write_result = Returns (), read_result = Returns [], random = example_draws,
       utcnow = now \<rparr>"

definition example_bad_crc_input :: cycle_input where
  "example_bad_crc_input =
     \<lparr> write_result = Returns (), read_result = Returns (replicate 19 0),
       random = example_draws, utcnow = ''2024-01-01T00:00:00'' \<rparr>"

definition example_simulating :: worker_state where
  "example_simulating =
     \<lparr> ser = None, sim_state = initial_sim_state, history = [], last_seq = 0,
       is_simulating = True \<rparr>"

definition example_polling :: worker_state where
  "example_polling =
     \<lparr> ser = Some (Serial ''COM4'' 4800), sim_state = initial_sim_state, history = [],
       last_seq = 0, is_simulating = False \<rparr>"

section \<open>The checksum\<close>

lemma low_bit_uint16: "(uint r AND 1 \<noteq> 0) = bit r 0" for r :: "16 word"
proof -
  have "(uint r AND 1 \<noteq> 0) = bit (uint r) 0"
    by (simp add: and_one_eq bit_0 odd_iff_mod_2_eq_one)
  also have "\<dots> = bit r 0"
    by (simp add: bit_unsigned_iff)
  finally show ?thesis .
qed

lemma take_bit_uint16: "take_bit 16 (uint r) = uint r" for r :: "16 word"
proof -
  have "uint r < 2 ^ 16" using uint_bounded [of r] by simp
  then show ?thesis by (simp add: take_bit_int_eq_self)
qed

lemma take_bit_uint8: "take_bit 16 (uint b) = uint b" for b :: byte
proof -
  have "uint b < 2 ^ 8" using uint_bounded [of b] by simp
  then have "uint b < 2 ^ 16" by simp
  then show ?thesis by (simp add: take_bit_int_eq_self)
qed

lemma drop_bit_uint16: "drop_bit 1 (uint r) = uint (drop_bit 1 r)" for r :: "16 word"
  by (simp add: unsigned_drop_bit_eq take_bit_uint16)

lemma crc_round_uint:
  "(if uint r AND 1 \<noteq> 0 then drop_bit 1 (uint r) XOR 0xA001 else drop_bit 1 (uint r))
     = uint (checksum16_step r)" for r :: "16 word"
  unfolding low_bit_uint16 drop_bit_uint16 checksum16_step_def
  by (simp add: unsigned_xor_eq)

lemma crc_rounds_uint: "crc_rounds n (uint r) = uint ((checksum16_step ^^ n) r)"
proof (induction n arbitrary: r)
  case 0
  show ?case by simp
next
  case (Suc n)
  have "crc_rounds (Suc n) (uint r) = crc_rounds n (uint (checksum16_step r))"
    by (simp only: crc_rounds.simps crc_round_uint)
  also have "\<dots> = uint ((checksum16_step ^^ n) (checksum16_step r))"
    by (rule Suc.IH)
  finally show ?case by (simp add: funpow_swap1)
qed

lemma xor_byte_uint: "uint r XOR uint b = uint (r XOR ucast b)" for r :: "16 word" and b :: byte
  by (simp add: unsigned_xor_eq unsigned_ucast_eq take_bit_uint8)

lemma crc_bytes_uint: "crc_bytes (uint r) data = uint (foldl checksum16_byte r data)"
proof (induction data arbitrary: r)
  case Nil
  show ?case by simp
next
  case (Cons b data)
  have "crc_bytes (uint r) (b # data) = crc_bytes (uint (checksum16_byte r b)) data"
    by (simp only: crc_bytes.simps xor_byte_uint crc_rounds_uint checksum16_byte_def)
  then show ?case by (simp add: Cons.IH)
qed

lemma mask_uint16: "uint w AND 0xFFFF = uint w" for w :: "16 word"
proof -
  have "(0xFFFF :: int) = mask 16"
    by (simp add: mask_eq_exp_minus_1)
  then have "uint w AND 0xFFFF = take_bit 16 (uint w)"
    by (simp only: take_bit_eq_mask)
  then show ?thesis by (simp only: take_bit_uint16)
qed

lemma crc16_modbus_uint: "crc16_modbus data = uint (foldl checksum16_byte 0xFFFF data)"
proof -
  have "crc_bytes 0xFFFF data = crc_bytes (uint (0xFFFF :: 16 word)) data"
    by simp
  also have "\<dots> = uint (foldl checksum16_byte 0xFFFF data)"
    by (simp only: crc_bytes_uint)
  finally show ?thesis
    by (simp only: crc16_modbus_def mask_uint16)
qed

text \<open>
  C2. The checksum of the code is the reference CRC-16/Modbus: for every byte sequence,
  the integer \<open>crc16_modbus\<close> returns is the value of the 16-bit register that starts at
  0xFFFF, has each byte XOR-ed in in order, and goes through 8 steps per byte, each a
  shift right by one with an XOR of 0xA001 when the low bit was set. Being the value of
  a function of the bytes alone, the result is deterministic.
\<close>

theorem crc16_modbus_is_checksum16:
  "crc16_modbus data = uint (checksum16 data)"
  by (simp only: crc16_modbus_uint checksum16_def)

section \<open>The validation order of \<open>parse_frame\<close>\<close>

lemma uint_byte_less: "uint b < 256" for b :: byte
  using uint_bounded [of b] by simp

lemma or_push_bit_bytes: "uint a OR push_bit 8 (uint b) = uint a + 256 * uint b"
  for a b :: byte
proof -
  have "take_bit 8 (uint a) = uint a"
    using uint_byte_less [of a] by (simp add: take_bit_int_eq_self)
  then have "uint a + 256 * uint b = take_bit 8 (uint a) + push_bit 8 (uint b)"
    by (simp add: push_bit_eq_mult)
  also have "\<dots> = concat_bit 8 (uint a) (uint b)"
    by (simp only: concat_bit_eq)
  also have "\<dots> = take_bit 8 (uint a) OR push_bit 8 (uint b)"
    by (simp add: concat_bit_def)
  finally show ?thesis
    using \<open>take_bit 8 (uint a) = uint a\<close> by simp
qed

lemma push_bit_or_bytes: "push_bit 8 (uint a) OR uint b = 256 * uint a + uint b"
  for a b :: byte
  using or_push_bit_bytes [of b a] by (simp add: or.commute)

lemma parse_frame_19:
  assumes "length frame = 19"
  shows "parse_frame frame =
     (if uint (frame ! 17) + 256 * uint (frame ! 18) \<noteq> crc16_modbus (take 17 frame)
      then Inl (CRC_mismatch (uint (frame ! 17) + 256 * uint (frame ! 18)) (crc16_modbus (take 17 frame)))
      else if frame ! 1 \<noteq> 3 then Inl (Unexpected_function_code (uint (frame ! 1)))
      else if frame ! 2 \<noteq> 14 then Inl (Unexpected_byte_count (uint (frame ! 2)))
      else Inr \<lparr> humidity = of_int (256 * uint (frame ! 3) + uint (frame ! 4)) / 10,
                 temperature = of_int (256 * uint (frame ! 5) + uint (frame ! 6)) / 10,
                 conductivity = 256 * uint (frame ! 7) + uint (frame ! 8),
                 ph = of_int (256 * uint (frame ! 9) + uint (frame ! 10)) / 10,
                 nitrogen = 256 * uint (frame ! 11) + uint (frame ! 12),
                 phosphorus = 256 * uint (frame ! 13) + uint (frame ! 14),
                 potassium = 256 * uint (frame ! 15) + uint (frame ! 16),
                 sensor_id = uint (frame ! 0),
                 timestamp = None \<rparr>)"
proof -
  have fc: "(uint (frame ! 1) \<noteq> 3) = (frame ! 1 \<noteq> 3)"
    by (simp add: word_uint_eq_iff)
  have bc: "(uint (frame ! 2) \<noteq> 14) = (frame ! 2 \<noteq> 14)"
    by (simp add: word_uint_eq_iff)
  have up: "[0..<7] = [0, 1, 2, 3, 4, 5, 6]"
    by (simp add: upt_rec)
  have regs: "regs_of frame =
      [256 * uint (frame ! 3) + uint (frame ! 4), 256 * uint (frame ! 5) + uint (frame ! 6),
       256 * uint (frame ! 7) + uint (frame ! 8), 256 * uint (frame ! 9) + uint (frame ! 10),
       256 * uint (frame ! 11) + uint (frame ! 12), 256 * uint (frame ! 13) + uint (frame ! 14),
       256 * uint (frame ! 15) + uint (frame ! 16)]"
    unfolding regs_of_def up by (simp add: reg_def push_bit_or_bytes)
  show ?thesis
    unfolding parse_frame_def Let_def regs fc bc
    using assms by (simp add: or_push_bit_bytes)
qed

text \<open>
  C1. \<open>parse_frame\<close> validates in a fixed order, with its own error at each stage.
  Every byte sequence whose length is not 19 fails with the frame-length error, whatever
  its bytes are. Every frame of 19 bytes whose last two bytes, read little-endian,
  differ from the checksum of the first 17 fails with the checksum error, whatever its
  function code and byte count are. With the checksum right, a second byte other than
  0x03 fails with the function-code error; with that right too, a third byte other than
  14 fails with the byte-count error. The four errors are different constructors, that
  is, \<^verbatim>\<open>ValueError\<close>s with different messages.
\<close>

theorem parse_frame_validation_order:
  "(length frame \<noteq> 19 \<longrightarrow>
      parse_frame frame = Inl (Invalid_frame_length (length frame)))
   \<and> (length frame = 19
        \<and> uint (frame ! 17) + 256 * uint (frame ! 18) \<noteq> crc16_modbus (take 17 frame) \<longrightarrow>
      parse_frame frame =
        Inl (CRC_mismatch (uint (frame ! 17) + 256 * uint (frame ! 18))
               (crc16_modbus (take 17 frame))))
   \<and> (length frame = 19
        \<and> uint (frame ! 17) + 256 * uint (frame ! 18) = crc16_modbus (take 17 frame)
        \<and> frame ! 1 \<noteq> 0x03 \<longrightarrow>
      parse_frame frame = Inl (Unexpected_function_code (uint (frame ! 1))))
   \<and> (length frame = 19
        \<and> uint (frame ! 17) + 256 * uint (frame ! 18) = crc16_modbus (take 17 frame)
        \<and> frame ! 1 = 0x03 \<and> frame ! 2 \<noteq> 14 \<longrightarrow>
      parse_frame frame = Inl (Unexpected_byte_count (uint (frame ! 2))))"
proof (cases "length frame = 19")
  case True
  then show ?thesis by (simp add: parse_frame_19)
next
  case False
  then show ?thesis by (simp add: parse_frame_def)
qed

text \<open>
  The four stages at concrete frames: lengths 0, 18 and 20; a frame of 19 bytes with a
  wrong checksum, a wrong function code and a wrong byte count at once; the same frame
  with its checksum right; a frame with only the byte count wrong.
\<close>

theorem parse_frame_validation_order_witness:
  "parse_frame [] = Inl (Invalid_frame_length 0)
   \<and> parse_frame (replicate 18 0) = Inl (Invalid_frame_length 18)
   \<and> parse_frame (replicate 20 0) = Inl (Invalid_frame_length 20)
   \<and> parse_frame [1, 4, 13, 2, 38, 1, 94, 1, 144, 0, 65, 0, 20, 0, 15, 0, 30, 0, 0]
       = Inl (CRC_mismatch 0 0xA77F)
   \<and> parse_frame [1, 4, 13, 2, 38, 1, 94, 1, 144, 0, 65, 0, 20, 0, 15, 0, 30, 127, 167]
       = Inl (Unexpected_function_code 4)
   \<and> parse_frame [1, 3, 13, 2, 38, 1, 94, 1, 144, 0, 65, 0, 20, 0, 15, 0, 30, 61, 149]
       = Inl (Unexpected_byte_count 13)"
proof -
  have c1: "crc16_modbus [1, 4, 13, 2, 38, 1, 94, 1, 144, 0, 65, 0, 20, 0, 15, 0, 30] = 0xA77F"
    by code_simp
  have c2: "crc16_modbus [1, 3, 13, 2, 38, 1, 94, 1, 144, 0, 65, 0, 20, 0, 15, 0, 30] = 0x953D"
    by code_simp
  have l0: "parse_frame [] = Inl (Invalid_frame_length 0)"
    using parse_frame_validation_order [of "[]"] by simp
  have l18: "parse_frame (replicate 18 0) = Inl (Invalid_frame_length 18)"
    using parse_frame_validation_order [of "replicate 18 0"] by simp
  have l20: "parse_frame (replicate 20 0) = Inl (Invalid_frame_length 20)"
    using parse_frame_validation_order [of "replicate 20 0"] by simp
  have crc: "parse_frame [1, 4, 13, 2, 38, 1, 94, 1, 144, 0, 65, 0, 20, 0, 15, 0, 30, 0, 0]
       = Inl (CRC_mismatch 0 0xA77F)"
    using parse_frame_validation_order
      [of "[1, 4, 13, 2, 38, 1, 94, 1, 144, 0, 65, 0, 20, 0, 15, 0, 30, 0, 0]"]
    by (simp add: c1)
  have fc: "parse_frame [1, 4, 13, 2, 38, 1, 94, 1, 144, 0, 65, 0, 20, 0, 15, 0, 30, 127, 167]
       = Inl (Unexpected_function_code 4)"
    using parse_frame_validation_order
      [of "[1, 4, 13, 2, 38, 1, 94, 1, 144, 0, 65, 0, 20, 0, 15, 0, 30, 127, 167]"]
    by (simp add: c1)
  have bc: "parse_frame [1, 3, 13, 2, 38, 1, 94, 1, 144, 0, 65, 0, 20, 0, 15, 0, 30, 61, 149]
       = Inl (Unexpected_byte_count 13)"
    using parse_frame_validation_order
      [of "[1, 3, 13, 2, 38, 1, 94, 1, 144, 0, 65, 0, 20, 0, 15, 0, 30, 61, 149]"]
    by (simp add: c2)
  from l0 l18 l20 crc fc bc show ?thesis by (intro conjI)
qed

section \<open>The query frame\<close>

text \<open>
  C3. The query frame has 8 bytes: address 0x01, function code 0x03, the start register
  0x0000 and the register count 0x0007 big-endian, and two last bytes which, read
  little-endian, are the checksum of the first 6 bytes as \<open>crc16_modbus\<close> computes it.
\<close>

theorem QUERY_FRAME_layout:
  "length QUERY_FRAME = 8
   \<and> QUERY_FRAME ! 0 = 0x01 \<and> QUERY_FRAME ! 1 = 0x03
   \<and> 256 * uint (QUERY_FRAME ! 2) + uint (QUERY_FRAME ! 3) = 0x0000
   \<and> 256 * uint (QUERY_FRAME ! 4) + uint (QUERY_FRAME ! 5) = 0x0007
   \<and> uint (QUERY_FRAME ! 6) + 256 * uint (QUERY_FRAME ! 7) = crc16_modbus (take 6 QUERY_FRAME)"
  by code_simp

section \<open>Decoding the registers\<close>

lemma example_crc: "crc16_modbus [1, 3, 14, 2, 38, 1, 94, 1, 144, 0, 65, 0, 20, 0, 15, 0, 30] = 0x947E"
  by code_simp

text \<open>
  C4. For every frame of 19 bytes that passes the four validation stages,
  \<open>parse_frame\<close> returns a reading whose sensor identifier is byte 0 and whose
  measurements are the seven big-endian unsigned 16-bit registers held in bytes 3..16,
  \<open>256 * hi + lo\<close> each: humidity, temperature and pH are registers 0, 1 and 3 divided
  by 10; conductivity, nitrogen, phosphorus and potassium are registers 2, 4, 5 and 6 as
  they are. The reading has no timestamp. In particular the frame holding the
  registers 550, 350, 400, 65, 20, 15, 30 decodes to humidity 55.0, temperature 35.0,
  conductivity 400, pH 6.5, nitrogen 20, phosphorus 15 and potassium 30.
\<close>

theorem parse_frame_decodes_registers:
  "(length frame = 19
      \<and> uint (frame ! 17) + 256 * uint (frame ! 18) = crc16_modbus (take 17 frame)
      \<and> frame ! 1 = 0x03 \<and> frame ! 2 = 14 \<longrightarrow>
    parse_frame frame =
      Inr \<lparr> humidity = of_int (256 * uint (frame ! 3) + uint (frame ! 4)) / 10,
            temperature = of_int (256 * uint (frame ! 5) + uint (frame ! 6)) / 10,
            conductivity = 256 * uint (frame ! 7) + uint (frame ! 8),
            ph = of_int (256 * uint (frame ! 9) + uint (frame ! 10)) / 10,
            nitrogen = 256 * uint (frame ! 11) + uint (frame ! 12),
            phosphorus = 256 * uint (frame ! 13) + uint (frame ! 14),
            potassium = 256 * uint (frame ! 15) + uint (frame ! 16),
            sensor_id = uint (frame ! 0),
            timestamp = None \<rparr>)
   \<and> regs_of [1, 3, 14, 2, 38, 1, 94, 1, 144, 0, 65, 0, 20, 0, 15, 0, 30, 126, 148]
       = [550, 350, 400, 65, 20, 15, 30]
   \<and> parse_frame [1, 3, 14, 2, 38, 1, 94, 1, 144, 0, 65, 0, 20, 0, 15, 0, 30, 126, 148]
       = Inr \<lparr> humidity = 55, temperature = 35, conductivity = 400, ph = 65 / 10,
               nitrogen = 20, phosphorus = 15, potassium = 30, sensor_id = 1,
               timestamp = None \<rparr>"
proof (intro conjI impI)
  assume "length frame = 19
      \<and> uint (frame ! 17) + 256 * uint (frame ! 18) = crc16_modbus (take 17 frame)
      \<and> frame ! 1 = 0x03 \<and> frame ! 2 = 14"
  then show "parse_frame frame =
      Inr \<lparr> humidity = of_int (256 * uint (frame ! 3) + uint (frame ! 4)) / 10,
            temperature = of_int (256 * uint (frame ! 5) + uint (frame ! 6)) / 10,
            conductivity = 256 * uint (frame ! 7) + uint (frame ! 8),
            ph = of_int (256 * uint (frame ! 9) + uint (frame ! 10)) / 10,
            nitrogen = 256 * uint (frame ! 11) + uint (frame ! 12),
            phosphorus = 256 * uint (frame ! 13) + uint (frame ! 14),
            potassium = 256 * uint (frame ! 15) + uint (frame ! 16),
            sensor_id = uint (frame ! 0),
            timestamp = None \<rparr>"
    by (simp add: parse_frame_19)
next
  show "regs_of [1, 3, 14, 2, 38, 1, 94, 1, 144, 0, 65, 0, 20, 0, 15, 0, 30, 126, 148]
       = [550, 350, 400, 65, 20, 15, 30]"
    by code_simp
next
  show "parse_frame [1, 3, 14, 2, 38, 1, 94, 1, 144, 0, 65, 0, 20, 0, 15, 0, 30, 126, 148]
       = Inr \<lparr> humidity = 55, temperature = 35, conductivity = 400, ph = 65 / 10,
               nitrogen = 20, phosphorus = 15, potassium = 30, sensor_id = 1,
               timestamp = None \<rparr>"
    by (simp add: parse_frame_19 example_crc)
qed

text \<open>
  Another valid frame, from address 2, with the extreme register values 0 and 65535.
\<close>

theorem parse_frame_decodes_registers_witness:
  "parse_frame [2, 3, 14, 0, 0, 255, 255, 0, 1, 0, 2, 0, 3, 0, 4, 0, 5, 144, 117]
     = Inr \<lparr> humidity = 0, temperature = 65535 / 10, conductivity = 1, ph = 2 / 10,
             nitrogen = 3, phosphorus = 4, potassium = 5, sensor_id = 2,
             timestamp = None \<rparr>"
proof -
  have c: "crc16_modbus [2, 3, 14, 0, 0, 255, 255, 0, 1, 0, 2, 0, 3, 0, 4, 0, 5] = 0x7590"
    by code_simp
  show ?thesis
    using parse_frame_decodes_registers
      [of "[2, 3, 14, 0, 0, 255, 255, 0, 1, 0, 2, 0, 3, 0, 4, 0, 5, 144, 117]"]
    by (simp add: c)
qed

section \<open>The address byte\<close>

lemma split_uint16:
  "uint (ucast c :: byte) + 256 * uint (ucast (drop_bit 8 c) :: byte) = uint c" for c :: "16 word"
proof -
  have lo: "uint (ucast c :: byte) = uint c mod 256"
    by (simp add: unsigned_ucast_eq take_bit_eq_mod)
  have small: "uint c div 256 < 256"
    using uint_bounded [of c] by simp
  have "uint (drop_bit 8 c) = drop_bit 8 (take_bit LENGTH(16) (uint c))"
    by (rule unsigned_drop_bit_eq)
  also have "take_bit LENGTH(16) (uint c) = uint c"
    by (simp add: take_bit_uint16)
  finally have d: "uint (drop_bit 8 c) = uint c div 256"
    by (simp add: drop_bit_eq_div)
  have "uint (ucast (drop_bit 8 c) :: byte) = uint (drop_bit 8 c) mod 256"
    by (simp only: unsigned_ucast_eq take_bit_eq_mod) simp
  moreover have "0 \<le> uint c div 256"
    by (simp add: pos_imp_zdiv_nonneg_iff)
  ultimately have hi: "uint (ucast (drop_bit 8 c) :: byte) = uint c div 256"
    using small by (simp only: d mod_pos_pos_trivial)
  show ?thesis unfolding lo hi by simp
qed

text \<open>
  C10. \<open>parse_frame\<close> never compares the address byte with the address queried. Every
  frame of 19 bytes that passes the checksum, function-code and byte-count checks is
  decoded, and the reading carries byte 0 unchanged as its sensor identifier; and for
  every value of that byte there is such a frame, so decoding succeeds for each of the
  256 addresses, although the query frame always addresses device 0x01.
\<close>

theorem parse_frame_ignores_address:
  "(length frame = 19
      \<and> uint (frame ! 17) + 256 * uint (frame ! 18) = crc16_modbus (take 17 frame)
      \<and> frame ! 1 = 0x03 \<and> frame ! 2 = 14 \<longrightarrow>
    (\<exists>r. parse_frame frame = Inr r \<and> sensor_id r = uint (frame ! 0)))
   \<and> (\<forall>a. \<exists>frame. length frame = 19 \<and> frame ! 0 = a
         \<and> (\<exists>r. parse_frame frame = Inr r \<and> sensor_id r = uint a))
   \<and> QUERY_FRAME ! 0 = 0x01"
proof (intro conjI impI allI)
  assume "length frame = 19
      \<and> uint (frame ! 17) + 256 * uint (frame ! 18) = crc16_modbus (take 17 frame)
      \<and> frame ! 1 = 0x03 \<and> frame ! 2 = 14"
  then show "\<exists>r. parse_frame frame = Inr r \<and> sensor_id r = uint (frame ! 0)"
    by (simp add: parse_frame_19)
next
  fix a :: byte
  define body where "body = a # 3 # 14 # replicate 14 (0 :: byte)"
  define c where "c = foldl checksum16_byte 0xFFFF body"
  define frame where "frame = body @ [ucast c, ucast (drop_bit 8 c)]"
  have len: "length frame = 19"
    by (simp add: frame_def body_def)
  have body17: "take 17 frame = body"
    by (simp add: frame_def body_def)
  have b0: "frame ! 0 = a" and b1: "frame ! 1 = 3" and b2: "frame ! 2 = 14"
    by (simp_all add: frame_def body_def)
  have "length body = 17"
    by (simp add: body_def)
  then have t17: "frame ! 17 = ucast c" and t18: "frame ! 18 = ucast (drop_bit 8 c)"
    by (simp_all add: frame_def nth_append)
  have crc: "uint (frame ! 17) + 256 * uint (frame ! 18) = crc16_modbus (take 17 frame)"
    unfolding t17 t18 body17 by (simp only: split_uint16 crc16_modbus_uint c_def)
  have "\<exists>r. parse_frame frame = Inr r \<and> sensor_id r = uint a"
    using len crc b0 b1 b2 by (simp add: parse_frame_19)
  with len b0
  show "\<exists>frame. length frame = 19 \<and> frame ! 0 = a
         \<and> (\<exists>r. parse_frame frame = Inr r \<and> sensor_id r = uint a)"
    by blast
next
  show "QUERY_FRAME ! 0 = 0x01"
    by (simp add: QUERY_FRAME_def)
qed

text \<open>A valid frame from address 247 is decoded, with sensor identifier 247.\<close>

theorem parse_frame_ignores_address_witness:
  "\<exists>r. parse_frame [247, 3, 14, 2, 38, 1, 94, 1, 144, 0, 65, 0, 20, 0, 15, 0, 30, 217, 6] = Inr r
       \<and> sensor_id r = 247"
proof -
  have c: "crc16_modbus [247, 3, 14, 2, 38, 1, 94, 1, 144, 0, 65, 0, 20, 0, 15, 0, 30] = 0x06D9"
    by code_simp
  show ?thesis
    using parse_frame_ignores_address
      [of "[247, 3, 14, 2, 38, 1, 94, 1, 144, 0, 65, 0, 20, 0, 15, 0, 30, 217, 6]"]
    by (simp add: c)
qed

section \<open>The clamp ranges of the synthetic source\<close>

lemma simulate_within: "within_clamp_ranges (simulate u s)"
  by (simp add: within_clamp_ranges_def simulate_def clamp_ranges_def)

lemma simulated_reading_within:
  "within_clamp_ranges (simulated_reading s) = within_clamp_ranges s"
  by (simp add: within_clamp_ranges_def simulated_reading_def)

lemma foldl_simulate_within:
  "within_clamp_ranges s \<Longrightarrow> within_clamp_ranges (foldl (\<lambda>s u. simulate u s) s us)"
  by (induction us arbitrary: s) (simp_all add: simulate_within)

lemma sim_state_pass:
  "sim_state (fst (serial_worker_pass cfg inp st)) = sim_state st
   \<or> sim_state (fst (serial_worker_pass cfg inp st)) = simulate (random inp) (sim_state st)"
  by (simp add: serial_worker_pass_def publish_def on_exception_def after_def Let_def
      split: option.splits outcome.splits sum.splits)

lemma pass_within:
  "within_clamp_ranges (sim_state st) \<Longrightarrow>
   within_clamp_ranges (sim_state (fst (serial_worker_pass cfg inp st)))"
  using sim_state_pass [of cfg inp st] by (auto simp: simulate_within)

lemma loop_within:
  "within_clamp_ranges (sim_state st) \<Longrightarrow>
   within_clamp_ranges (sim_state (fst (serial_worker_loop cfg inps st)))"
  by (induction inps arbitrary: st) (simp_all add: after_def pass_within)

text \<open>
  C8. Every step of the synthetic source ends within the clamp ranges, from any state
  and for any values drawn: humidity in 0..100, temperature in -20..60, pH in 0..14,
  conductivity, nitrogen, phosphorus and potassium not negative; the reading built from
  the state is within them too. Hence any number of successive steps from a state within
  the ranges stays within them, and so does \<open>sim_state\<close> over any number of passes of
  the worker.
\<close>

theorem simulate_clamp_invariant:
  "within_clamp_ranges (simulate u s)
   \<and> within_clamp_ranges (simulated_reading (simulate u s))
   \<and> (within_clamp_ranges s \<longrightarrow> within_clamp_ranges (foldl (\<lambda>s u. simulate u s) s us))
   \<and> (within_clamp_ranges (sim_state st) \<longrightarrow>
        within_clamp_ranges (sim_state (fst (serial_worker_loop cfg inps st))))"
  by (simp add: simulate_within simulated_reading_within foldl_simulate_within loop_within)

text \<open>10,000 steps from the initial state of the synthetic source.\<close>

theorem simulate_clamp_invariant_witness:
  "within_clamp_ranges initial_sim_state
   \<and> within_clamp_ranges (foldl (\<lambda>s u. simulate u s) initial_sim_state
        (replicate 10000 example_draws))
   \<and> within_clamp_ranges (sim_state example_simulating)
   \<and> within_clamp_ranges (sim_state (fst (serial_worker_loop example_config
        (replicate 10000 (example_input ''t'')) example_simulating)))"
proof -
  have i: "within_clamp_ranges initial_sim_state"
    by (simp add: within_clamp_ranges_def initial_sim_state_def)
  then have j: "within_clamp_ranges (sim_state example_simulating)"
    by (simp add: example_simulating_def)
  note t = simulate_clamp_invariant [of example_draws initial_sim_state
      "replicate 10000 example_draws" example_simulating example_config
      "replicate 10000 (example_input ''t'')"]
  from t i j show ?thesis by blast
qed

section \<open>The history and the sequence counter\<close>

lemma appended_append: "appended (xs @ ys) = appended xs @ appended ys"
  by (induction xs rule: appended.induct) simp_all

lemma deque_append_drop:
  "length d \<le> n \<Longrightarrow> deque_append n d x = drop (Suc (length d) - n) (d @ [x])"
proof (cases "n < Suc (length d)")
  case True
  assume "length d \<le> n"
  with True have "Suc (length d) - n = Suc 0" by simp
  moreover have "drop (Suc 0) (d @ [x]) = tl (d @ [x])"
    by (simp only: drop_Suc drop_0)
  moreover have "deque_append n d x = tl (d @ [x])"
    using True by (simp add: deque_append_def Let_def)
  ultimately show ?thesis by (simp only:)
next
  case False
  then show ?thesis
    by (simp add: deque_append_def Let_def)
qed

lemma deque_append_full: "length d = n \<Longrightarrow> 0 < n \<Longrightarrow> deque_append n d x = tl d @ [x]"
  by (cases d) (simp_all add: deque_append_def Let_def)

lemma foldl_deque_append:
  "length d \<le> n \<Longrightarrow>
   foldl (deque_append n) d xs = drop (length d + length xs - n) (d @ xs)"
proof (induction xs rule: rev_induct)
  case Nil
  then show ?case by simp
next
  case (snoc x xs)
  let ?m = "length d + length xs - n"
  let ?h = "drop ?m (d @ xs)"
  have h: "foldl (deque_append n) d xs = ?h"
    using snoc by simp
  have len: "length ?h \<le> n"
    by simp
  have "foldl (deque_append n) d (xs @ [x]) = deque_append n ?h x"
    by (simp add: h)
  also have "\<dots> = drop (Suc (length ?h) - n) (?h @ [x])"
    using len by (rule deque_append_drop)
  also have "?h @ [x] = drop ?m (d @ xs @ [x])"
    by simp
  also have "drop (Suc (length ?h) - n) (drop ?m (d @ xs @ [x]))
      = drop (Suc (length ?h) - n + ?m) (d @ xs @ [x])"
    by (simp only: drop_drop)
  also have "Suc (length ?h) - n + ?m = length d + length (xs @ [x]) - n"
    by (cases "length d + length xs \<le> n") auto
  finally show ?case .
qed

lemma history_publish:
  "history (fst (publish cfg now data st))
     = foldl (deque_append (HISTORY_MAX cfg)) (history st) (appended (snd (publish cfg now data st)))"
  by (simp add: publish_def Let_def rest_of_interval_def)

lemma history_on_exception:
  "history (fst (on_exception cfg st)) = history st \<and> appended (snd (on_exception cfg st)) = []"
  by (simp add: on_exception_def)

lemma history_pass:
  "history (fst (serial_worker_pass cfg inp st))
     = foldl (deque_append (HISTORY_MAX cfg)) (history st)
         (appended (snd (serial_worker_pass cfg inp st)))"
  by (simp add: serial_worker_pass_def after_def Let_def history_publish history_on_exception
      rest_of_interval_def split: option.splits outcome.splits sum.splits)

lemma history_loop:
  "history (fst (serial_worker_loop cfg inps st))
     = foldl (deque_append (HISTORY_MAX cfg)) (history st)
         (appended (snd (serial_worker_loop cfg inps st)))"
proof (induction inps arbitrary: st)
  case Nil
  show ?case by simp
next
  case (Cons inp inps)
  show ?case
    by (simp add: after_def appended_append Cons.IH history_pass)
qed

text \<open>
  C5. Starting from an empty history, after any number of passes of the worker the
  history is never longer than \<open>HISTORY_MAX\<close>; once \<open>HISTORY_MAX + k\<close> readings have been
  appended it holds exactly the last \<open>HISTORY_MAX\<close> of them, oldest first, in the order
  they were appended (and all of them while they are at most \<open>HISTORY_MAX\<close>). Appending
  to a full history removes exactly its oldest entry.
\<close>

theorem history_keeps_last_capacity:
  "(history st = [] \<longrightarrow>
      length (history (fst (serial_worker_loop cfg inps st))) \<le> HISTORY_MAX cfg
      \<and> (\<forall>k. length (appended (snd (serial_worker_loop cfg inps st))) = HISTORY_MAX cfg + k \<longrightarrow>
            history (fst (serial_worker_loop cfg inps st))
              = drop k (appended (snd (serial_worker_loop cfg inps st))))
      \<and> (length (appended (snd (serial_worker_loop cfg inps st))) \<le> HISTORY_MAX cfg \<longrightarrow>
            history (fst (serial_worker_loop cfg inps st))
              = appended (snd (serial_worker_loop cfg inps st))))
   \<and> (length d = HISTORY_MAX cfg \<and> 0 < HISTORY_MAX cfg \<longrightarrow>
        deque_append (HISTORY_MAX cfg) d x = tl d @ [x])"
proof (intro conjI impI allI)
  let ?rs = "appended (snd (serial_worker_loop cfg inps st))"
  let ?h = "history (fst (serial_worker_loop cfg inps st))"
  assume "history st = []"
  then have h: "?h = drop (length ?rs - HISTORY_MAX cfg) ?rs"
    by (simp add: history_loop foldl_deque_append)
  have "length (drop (length ?rs - HISTORY_MAX cfg) ?rs) \<le> HISTORY_MAX cfg"
    by simp
  then show "length ?h \<le> HISTORY_MAX cfg"
    by (simp only: h)
  show "?h = drop k ?rs" if "length ?rs = HISTORY_MAX cfg + k" for k
    using that by (simp add: h)
  show "?h = ?rs" if "length ?rs \<le> HISTORY_MAX cfg"
    using that by (simp add: h)
next
  assume "length d = HISTORY_MAX cfg \<and> 0 < HISTORY_MAX cfg"
  then show "deque_append (HISTORY_MAX cfg) d x = tl d @ [x]"
    by (simp add: deque_append_full)
qed

text \<open>
  Three simulated passes with a history of two: the first reading is gone, the readings
  stamped \<open>t2\<close> and \<open>t3\<close> remain in that order.
\<close>

theorem history_keeps_last_capacity_witness:
  "history example_simulating = []
   \<and> length (appended (snd (serial_worker_loop example_config
         [example_input ''t1'', example_input ''t2'', example_input ''t3''] example_simulating)))
       = HISTORY_MAX example_config + 1
   \<and> length (history (fst (serial_worker_loop example_config
         [example_input ''t1'', example_input ''t2'', example_input ''t3''] example_simulating)))
       \<le> HISTORY_MAX example_config
   \<and> history (fst (serial_worker_loop example_config
         [example_input ''t1'', example_input ''t2'', example_input ''t3''] example_simulating))
       = drop 1 (appended (snd (serial_worker_loop example_config
           [example_input ''t1'', example_input ''t2'', example_input ''t3''] example_simulating)))
   \<and> map timestamp (history (fst (serial_worker_loop example_config
         [example_input ''t1'', example_input ''t2'', example_input ''t3''] example_simulating)))
       = [Some ''t2Z'', Some ''t3Z'']"
proof -
  let ?inps = "[example_input ''t1'', example_input ''t2'', example_input ''t3'']"
  let ?run = "serial_worker_loop example_config ?inps example_simulating"
  note t = history_keeps_last_capacity [of example_simulating example_config ?inps]
  have e: "history example_simulating = []"
    by (simp add: example_simulating_def)
  have n: "length (appended (snd ?run)) = HISTORY_MAX example_config + 1"
    by code_simp
  have ts: "map timestamp (history (fst ?run)) = [Some ''t2Z'', Some ''t3Z'']"
    by code_simp
  note t1 = t [THEN conjunct1, THEN mp, OF e]
  have b: "length (history (fst ?run)) \<le> HISTORY_MAX example_config"
    using t1 by (rule conjunct1)
  have d: "history (fst ?run) = drop 1 (appended (snd ?run))"
    using t1 [THEN conjunct2, THEN conjunct1, THEN spec [where x = 1], THEN mp, OF n] .
  from e n b d ts show ?thesis by (intro conjI)
qed

lemma last_seq_pass:
  "last_seq (fst (serial_worker_pass cfg inp st))
     = last_seq st + int (length (appended (snd (serial_worker_pass cfg inp st))))"
  by (simp add: serial_worker_pass_def after_def Let_def publish_def on_exception_def
      rest_of_interval_def split: option.splits outcome.splits sum.splits)

lemma appended_pass_le: "length (appended (snd (serial_worker_pass cfg inp st))) \<le> 1"
  by (simp add: serial_worker_pass_def after_def Let_def publish_def on_exception_def
      rest_of_interval_def split: option.splits outcome.splits sum.splits)

lemma last_seq_loop:
  "last_seq (fst (serial_worker_loop cfg inps st))
     = last_seq st + int (length (appended (snd (serial_worker_loop cfg inps st))))"
proof (induction inps arbitrary: st)
  case Nil
  show ?case by simp
next
  case (Cons inp inps)
  show ?case
    by (simp add: after_def appended_append Cons.IH last_seq_pass)
qed

text \<open>
  C6. The block under \<^verbatim>\<open>with _cond\<close> is one transition that appends the stamped reading
  to the history and adds exactly 1 to the counter. A pass of the worker appends at most
  one reading, from the port or simulated, and the counter grows by the number of
  readings appended; over any number of passes the counter is its old value plus the
  number of readings appended, so it never decreases and is never reset.
\<close>

theorem last_seq_counts_appends:
  "fst (publish cfg now data st)
     = st\<lparr>history := deque_append (HISTORY_MAX cfg) (history st) (data\<lparr>timestamp := Some (now @ ''Z'')\<rparr>),
          last_seq := last_seq st + 1\<rparr>
   \<and> length (appended (snd (serial_worker_pass cfg inp st))) \<le> 1
   \<and> last_seq (fst (serial_worker_pass cfg inp st))
       = last_seq st + int (length (appended (snd (serial_worker_pass cfg inp st))))
   \<and> last_seq (fst (serial_worker_loop cfg inps st))
       = last_seq st + int (length (appended (snd (serial_worker_loop cfg inps st))))
   \<and> last_seq st \<le> last_seq (fst (serial_worker_loop cfg inps st))"
proof (intro conjI)
  show "fst (publish cfg now data st)
     = st\<lparr>history := deque_append (HISTORY_MAX cfg) (history st) (data\<lparr>timestamp := Some (now @ ''Z'')\<rparr>),
          last_seq := last_seq st + 1\<rparr>"
    by (simp add: publish_def Let_def)
  show "length (appended (snd (serial_worker_pass cfg inp st))) \<le> 1"
    by (rule appended_pass_le)
  show "last_seq (fst (serial_worker_pass cfg inp st))
       = last_seq st + int (length (appended (snd (serial_worker_pass cfg inp st))))"
    by (rule last_seq_pass)
  show "last_seq (fst (serial_worker_loop cfg inps st))
       = last_seq st + int (length (appended (snd (serial_worker_loop cfg inps st))))"
    by (rule last_seq_loop)
  then show "last_seq st \<le> last_seq (fst (serial_worker_loop cfg inps st))"
    by simp
qed

text \<open>The example states are those the start of the worker yields.\<close>

lemma example_states_from_start:
  "serial_worker_start example_config True True
     = Some (example_polling, [Open ''COM4'' 4800])
   \<and> serial_worker_start example_config True False
       = Some (example_simulating, [Open ''COM4'' 4800])
   \<and> serial_worker_start example_config False False = Some (example_simulating, [])
   \<and> serial_worker_start (example_config\<lparr>FALLBACK_TO_SIM := False\<rparr>) True False = None"
  by (simp add: serial_worker_start_def example_config_def example_polling_def
      example_simulating_def)

section \<open>Failures while polling the port\<close>

lemma failing_pass:
  assumes "ser st = Some port" and "cycle_fails inp"
  shows "\<exists>pre. serial_worker_pass cfg inp st = after pre (on_exception cfg st)
           \<and> set pre \<subseteq> {Reset_input_buffer, Write QUERY_FRAME, Sleep (2 / 10), Read 19}"
  using assms
  by (auto simp: serial_worker_pass_def cycle_fails_def split: outcome.splits sum.splits)

text \<open>
  C9, as the code has it. When a pass with a port fails (the write raises, the read
  raises, or a full response does not parse), nothing is appended and no port is opened.
  With the fallback enabled, the worker closes the port, forgets it and sets
  \<open>is_simulating\<close>, so the next pass is simulated; the pass ends with the close and a
  sleep of 1. With the fallback disabled the state is unchanged: the port is not closed
  and stays the worker's port, and the pass ends with a sleep of 1, after which the next
  pass polls the same port.
\<close>

theorem failure_handling:
  "ser st = Some port \<and> cycle_fails inp \<longrightarrow>
     (FALLBACK_TO_SIM cfg \<longrightarrow>
        fst (serial_worker_pass cfg inp st) = st\<lparr>ser := None, is_simulating := True\<rparr>
        \<and> (\<exists>pre. snd (serial_worker_pass cfg inp st) = pre @ [Close, Sleep 1]
               \<and> Close \<notin> set pre))
     \<and> (\<not> FALLBACK_TO_SIM cfg \<longrightarrow>
        fst (serial_worker_pass cfg inp st) = st
        \<and> Close \<notin> set (snd (serial_worker_pass cfg inp st))
        \<and> (\<exists>pre. snd (serial_worker_pass cfg inp st) = pre @ [Sleep 1]))
     \<and> (\<forall>port baud. Open port baud \<notin> set (snd (serial_worker_pass cfg inp st)))
     \<and> appended (snd (serial_worker_pass cfg inp st)) = []"
proof (intro impI)
  assume "ser st = Some port \<and> cycle_fails inp"
  then obtain pre where p: "serial_worker_pass cfg inp st = after pre (on_exception cfg st)"
    and d: "set pre \<subseteq> {Reset_input_buffer, Write QUERY_FRAME, Sleep (2 / 10), Read 19}"
    and s: "ser st = Some port"
    using failing_pass [of st port inp cfg] by blast
  from d have nc: "Close \<notin> set pre" and no: "\<And>port baud. Open port baud \<notin> set pre"
    and na: "appended pre = []"
    by (induction pre; auto)+
  show "(FALLBACK_TO_SIM cfg \<longrightarrow>
        fst (serial_worker_pass cfg inp st) = st\<lparr>ser := None, is_simulating := True\<rparr>
        \<and> (\<exists>pre. snd (serial_worker_pass cfg inp st) = pre @ [Close, Sleep 1]
               \<and> Close \<notin> set pre))
     \<and> (\<not> FALLBACK_TO_SIM cfg \<longrightarrow>
        fst (serial_worker_pass cfg inp st) = st
        \<and> Close \<notin> set (snd (serial_worker_pass cfg inp st))
        \<and> (\<exists>pre. snd (serial_worker_pass cfg inp st) = pre @ [Sleep 1]))
     \<and> (\<forall>port baud. Open port baud \<notin> set (snd (serial_worker_pass cfg inp st)))
     \<and> appended (snd (serial_worker_pass cfg inp st)) = []"
    using nc no na s
    by (simp add: p after_def on_exception_def appended_append)
qed

text \<open>A response with a wrong checksum, with the fallback enabled and disabled.\<close>

theorem failure_handling_witness:
  "ser example_polling = Some (Serial ''COM4'' 4800) \<and> cycle_fails example_bad_crc_input
   \<and> FALLBACK_TO_SIM example_config
   \<and> fst (serial_worker_pass example_config example_bad_crc_input example_polling)
       = example_polling\<lparr>ser := None, is_simulating := True\<rparr>
   \<and> \<not> FALLBACK_TO_SIM (example_config\<lparr>FALLBACK_TO_SIM := False\<rparr>)
   \<and> fst (serial_worker_pass (example_config\<lparr>FALLBACK_TO_SIM := False\<rparr>)
          example_bad_crc_input example_polling)
       = example_polling"
proof -
  have s: "ser example_polling = Some (Serial ''COM4'' 4800)"
    by (simp add: example_polling_def)
  have f: "cycle_fails example_bad_crc_input"
    by code_simp
  have y: "FALLBACK_TO_SIM example_config"
    by (simp add: example_config_def)
  have n: "\<not> FALLBACK_TO_SIM (example_config\<lparr>FALLBACK_TO_SIM := False\<rparr>)"
    by simp
  have a: "fst (serial_worker_pass example_config example_bad_crc_input example_polling)
       = example_polling\<lparr>ser := None, is_simulating := True\<rparr>"
    using failure_handling [of example_polling "Serial ''COM4'' 4800" example_bad_crc_input
        example_config] s f y
    by blast
  have b: "fst (serial_worker_pass (example_config\<lparr>FALLBACK_TO_SIM := False\<rparr>)
          example_bad_crc_input example_polling)
       = example_polling"
    using failure_handling [of example_polling "Serial ''COM4'' 4800" example_bad_crc_input
        "example_config\<lparr>FALLBACK_TO_SIM := False\<rparr>"] s f n
    by blast
  from s f y a n b show ?thesis by (intro conjI)
qed

text \<open>
  With the fallback disabled, a response whose checksum is wrong leaves the worker with
  its port: the pass resets the buffer, writes, sleeps, reads and sleeps 1, and neither
  closes the port nor opens one.
\<close>

theorem failure_without_fallback_counterexample:
  "ser example_polling = Some (Serial ''COM4'' 4800)
   \<and> read_result example_bad_crc_input = Returns (replicate 19 0)
   \<and> parse_frame (replicate 19 0) = Inl (CRC_mismatch 0 0x7070)
   \<and> \<not> FALLBACK_TO_SIM (example_config\<lparr>FALLBACK_TO_SIM := False\<rparr>)
   \<and> serial_worker_pass (example_config\<lparr>FALLBACK_TO_SIM := False\<rparr>)
         example_bad_crc_input example_polling
       = (example_polling,
          [Reset_input_buffer, Write QUERY_FRAME, Sleep (2 / 10), Read 19, Sleep 1])
   \<and> Close \<notin> set (snd (serial_worker_pass (example_config\<lparr>FALLBACK_TO_SIM := False\<rparr>)
         example_bad_crc_input example_polling))"
  by code_simp

section \<open>Waiting for the next reading\<close>

lemma wait_for_none: "\<forall>w \<in> set ws. \<not> p w \<Longrightarrow> wait_for p ws = None"
  by (induction ws) simp_all

lemma wait_for_first: "\<forall>w \<in> set ws. \<not> p w \<Longrightarrow> p s \<Longrightarrow> wait_for p (ws @ s # later) = Some s"
  by (induction ws) simp_all

lemma latest_after_appends:
  assumes "0 < HISTORY_MAX cfg" and "history st = []" and "last_seq st = 0"
    and "0 < last_seq (fst (serial_worker_loop cfg inps st))"
  shows "history (fst (serial_worker_loop cfg inps st)) \<noteq> []
    \<and> last (history (fst (serial_worker_loop cfg inps st)))
        = last (appended (snd (serial_worker_loop cfg inps st)))"
proof -
  let ?rs = "appended (snd (serial_worker_loop cfg inps st))"
  let ?h = "history (fst (serial_worker_loop cfg inps st))"
  have "last_seq (fst (serial_worker_loop cfg inps st)) = int (length ?rs)"
    using assms(3) by (simp add: last_seq_loop)
  with assms(4) have ne: "?rs \<noteq> []"
    by auto
  have h: "?h = drop (length ?rs - HISTORY_MAX cfg) ?rs"
    using assms(2) by (simp add: history_loop foldl_deque_append)
  from ne assms(1) have lt: "length ?rs - HISTORY_MAX cfg < length ?rs"
    by (cases ?rs) auto
  then show ?thesis
    by (simp add: h)
qed

text \<open>
  C7, as the code has it. Let the history hold at least one reading
  (\<open>0 < HISTORY_MAX\<close>), let the worker have run any number of passes from its start, and
  let \<open>last_seen\<close> be a stale sequence number: a value the counter had earlier, hence
  not negative and smaller than the counter. Then a pass of \<open>event_stream\<close> that finds
  this state on entry yields at once the reading appended last together with the
  counter. A pass that finds only states whose counter equals \<open>last_seen\<close> is blocked;
  when such states are followed by the state above, the pass yields the reading
  appended last and the new counter.
\<close>

theorem event_stream_latest:
  assumes "0 < HISTORY_MAX cfg" and "history st = []" and "last_seq st = 0"
    and "0 \<le> last_seen" and "last_seen < last_seq (fst (serial_worker_loop cfg inps st))"
    and "\<forall>w \<in> set waiting. last_seq w = last_seen"
  shows "event_stream last_seen (fst (serial_worker_loop cfg inps st) # later)
           = Yield (last (appended (snd (serial_worker_loop cfg inps st))))
               (last_seq (fst (serial_worker_loop cfg inps st)))
    \<and> event_stream last_seen waiting = Blocked
    \<and> event_stream last_seen (waiting @ fst (serial_worker_loop cfg inps st) # later)
           = Yield (last (appended (snd (serial_worker_loop cfg inps st))))
               (last_seq (fst (serial_worker_loop cfg inps st)))"
proof -
  let ?s = "fst (serial_worker_loop cfg inps st)"
  let ?p = "\<lambda>s. last_seq s \<noteq> last_seen"
  from assms(4,5) have pos: "0 < last_seq ?s" and ps: "?p ?s"
    by simp_all
  from assms(6) have nw: "\<forall>w \<in> set waiting. \<not> ?p w"
    by simp
  have l: "history ?s \<noteq> [] \<and> last (history ?s) = last (appended (snd (serial_worker_loop cfg inps st)))"
    using assms(1,2,3) pos by (rule latest_after_appends)
  have a: "wait_for ?p (?s # later) = Some ?s"
    using ps by simp
  have b: "wait_for ?p waiting = None"
    using nw by (rule wait_for_none)
  have c: "wait_for ?p (waiting @ ?s # later) = Some ?s"
    using nw ps by (rule wait_for_first)
  show ?thesis
    unfolding event_stream_def a b c using l by simp
qed

text \<open>
  After three simulated passes a reader that has seen sequence number 2 gets the third
  reading; a reader that meets the state after two passes waits, and gets the third
  reading when the state after three passes follows.
\<close>

theorem event_stream_latest_witness:
  "event_stream 2
      (fst (serial_worker_loop example_config
         [example_input ''t1'', example_input ''t2'', example_input ''t3''] example_simulating)
       # [])
     = Yield (last (appended (snd (serial_worker_loop example_config
         [example_input ''t1'', example_input ''t2'', example_input ''t3''] example_simulating))))
         3
   \<and> event_stream 2
        [fst (serial_worker_loop example_config
           [example_input ''t1'', example_input ''t2''] example_simulating)]
     = Blocked
   \<and> event_stream 2
        ([fst (serial_worker_loop example_config
            [example_input ''t1'', example_input ''t2''] example_simulating)]
         @ fst (serial_worker_loop example_config
            [example_input ''t1'', example_input ''t2'', example_input ''t3''] example_simulating)
         # [])
     = Yield (last (appended (snd (serial_worker_loop example_config
         [example_input ''t1'', example_input ''t2'', example_input ''t3''] example_simulating))))
         3"
proof -
  let ?inps = "[example_input ''t1'', example_input ''t2'', example_input ''t3'']"
  let ?s3 = "fst (serial_worker_loop example_config ?inps example_simulating)"
  let ?s2 = "fst (serial_worker_loop example_config
      [example_input ''t1'', example_input ''t2''] example_simulating)"
  have c: "0 < HISTORY_MAX example_config"
    by (simp add: example_config_def)
  have h: "history example_simulating = []" and z: "last_seq example_simulating = 0"
    by (simp_all add: example_simulating_def)
  have n3: "last_seq ?s3 = 3"
    by code_simp
  have n2: "last_seq ?s2 = 2"
    by code_simp
  have w: "\<forall>w \<in> set [?s2]. last_seq w = 2"
    using n2 by simp
  have "(0::int) \<le> 2" and "2 < last_seq ?s3"
    using n3 by simp_all
  with c h z
  have "event_stream 2 (?s3 # [])
           = Yield (last (appended (snd (serial_worker_loop example_config ?inps example_simulating))))
               (last_seq ?s3)
    \<and> event_stream 2 [?s2] = Blocked
    \<and> event_stream 2 ([?s2] @ ?s3 # [])
           = Yield (last (appended (snd (serial_worker_loop example_config ?inps example_simulating))))
               (last_seq ?s3)"
    using w by (rule event_stream_latest)
  then show ?thesis
    by (simp only: n3)
qed

text \<open>
  With \<open>HISTORY_MAX = 0\<close> one simulated pass raises the counter from 0 to 1 and leaves
  the history empty: a reader that has seen 0 holds a stale number, and
  \<^verbatim>\<open>history[-1]\<close> raises instead of returning a reading.
\<close>

theorem event_stream_capacity_zero_counterexample:
  "HISTORY_MAX (example_config\<lparr>HISTORY_MAX := 0\<rparr>) = 0
   \<and> last_seq example_simulating = 0
   \<and> last_seq (fst (serial_worker_loop (example_config\<lparr>HISTORY_MAX := 0\<rparr>)
        [example_input ''t1''] example_simulating)) = 1
   \<and> history (fst (serial_worker_loop (example_config\<lparr>HISTORY_MAX := 0\<rparr>)
        [example_input ''t1''] example_simulating)) = []
   \<and> event_stream 0
        [fst (serial_worker_loop (example_config\<lparr>HISTORY_MAX := 0\<rparr>)
           [example_input ''t1''] example_simulating)]
       = IndexError"
  by code_simp

end
